theory Spec2Isabelle
  imports Complex_Main "HOL-Library.Sublist"
begin

section \<open>Helper functions of the models package (mmworkbench/models/helpers.py)\<close>

text \<open>
  Python values are modelled as follows. A \<open>str\<close> whose characters the code inspects
  (the token of \<open>mask_numerics\<close>) is the list of its Unicode code points; a \<open>str\<close>
  that is only compared, joined or used as a key is a \<open>string\<close>. Python's unbounded
  \<open>int\<close> is \<open>int\<close>. An exception is a value of \<open>py_error\<close>, and a function that can
  raise returns \<open>py_error + 'a\<close> with \<open>Inl\<close> for the exception.
\<close>

subsection \<open>Exceptions\<close>

text \<open>
  \<open>ValueError template argument\<close> stands for the exception whose message is
  \<open>template.format(argument)\<close>; the \<open>{!r}\<close> conversion is kept symbolic.
\<close>

datatype py_error =
    ValueError string string
  | KeyError string
  | IndexError
  | TypeError
  | OtherError string

subsection \<open>Constants\<close>

definition GAZETTEER_RSC :: string where
  "GAZETTEER_RSC = ''gazetteers''"

definition OUT_OF_BOUNDS_TOKEN :: string where
  "OUT_OF_BOUNDS_TOKEN = ''<$>''"

subsection \<open>mask_numerics\<close>

text \<open>
  The token is a sequence of Unicode code points; \<open>ustr\<close> gives the code points of an
  ASCII literal.
\<close>

type_synonym ustring = "nat list"

definition ustr :: "string \<Rightarrow> ustring" where
  "ustr s = map of_char s"

text \<open>
  \<open>str.isdigit\<close> and the regular expression class \<open>\\d\<close> test two different
  properties of a character: the first holds for every character whose numeric type is
  digit or decimal, the second for the decimal digits only. In the ASCII range both
  hold exactly for \<open>0\<close> to \<open>9\<close>. Beyond it they are read from the Unicode database
  of the interpreter, which is not part of the program and is a parameter here.
\<close>

record unicode_db =
  db_isdigit :: "nat \<Rightarrow> bool"
  db_decimal :: "nat \<Rightarrow> bool"

definition char_isdigit :: "unicode_db \<Rightarrow> nat \<Rightarrow> bool" where
  "char_isdigit db c = (if c < 128 then 48 \<le> c \<and> c \<le> 57 else db_isdigit db c)"

definition re_digit :: "unicode_db \<Rightarrow> nat \<Rightarrow> bool" where
  "re_digit db c = (if c < 128 then 48 \<le> c \<and> c \<le> 57 else db_decimal db c)"

text \<open>\<open>str.isdigit()\<close>: every character is a digit and there is at least one character.\<close>

definition isdigit :: "unicode_db \<Rightarrow> ustring \<Rightarrow> bool" where
  "isdigit db token = (token \<noteq> [] \<and> list_all (char_isdigit db) token)"

text \<open>\<open>re.sub(r'\\d', '8', token)\<close>: every match of the one-character class is replaced.\<close>

definition re_sub_digit_8 :: "unicode_db \<Rightarrow> ustring \<Rightarrow> ustring" where
  "re_sub_digit_8 db token = map (\<lambda>c. if re_digit db c then of_char CHR ''8'' else c) token"

definition mask_numerics :: "unicode_db \<Rightarrow> ustring \<Rightarrow> ustring" where
  "mask_numerics db token = (if isdigit db token then ustr ''#NUM'' else re_sub_digit_8 db token)"

text \<open>
  An excerpt of the Unicode database for the examples: the superscript digits U+00B2,
  U+00B3 and U+00B9 have the numeric type digit and are no decimal digits; the
  Arabic-Indic digits U+0660 to U+0669 are decimal digits.
\<close>

definition example_unicode_db :: unicode_db where
  "example_unicode_db =
     \<lparr>db_isdigit = (\<lambda>c. c = 0xB2 \<or> c = 0xB3 \<or> c = 0xB9 \<or> (0x660 \<le> c \<and> c \<le> 0x669)),
      db_decimal = (\<lambda>c. 0x660 \<le> c \<and> c \<le> 0x669)\<rparr>"

subsection \<open>get_ngram\<close>

text \<open>
  List indexing \<open>tokens[index]\<close>: a negative index counts from the end, and an index
  out of range raises \<open>IndexError\<close>.
\<close>

definition py_getitem :: "'a list \<Rightarrow> int \<Rightarrow> py_error + 'a" where
  "py_getitem xs i =
     (if 0 \<le> i \<and> i < int (length xs) then Inr (xs ! nat i)
      else if i < 0 \<and> - int (length xs) \<le> i then Inr (xs ! nat (int (length xs) + i))
      else Inl IndexError)"

text \<open>\<open>sep.join(parts)\<close>\<close>

fun join :: "string \<Rightarrow> string list \<Rightarrow> string" where
  "join sep [] = []"
| "join sep [x] = x"
| "join sep (x # y # ys) = x @ sep @ join sep (y # ys)"

text \<open>\<open>range(a, b)\<close> as the list of its elements.\<close>

definition py_range :: "int \<Rightarrow> int \<Rightarrow> int list" where
  "py_range a b = [a..b - 1]"

text \<open>
  The body of the \<open>for\<close> loop, run over the remaining indices with the list
  \<open>ngram_tokens\<close> built so far.
\<close>

fun get_ngram_loop :: "string list \<Rightarrow> int list \<Rightarrow> string list \<Rightarrow> py_error + string list" where
  "get_ngram_loop tokens [] ngram_tokens = Inr ngram_tokens"
| "get_ngram_loop tokens (index # rest) ngram_tokens =
     (case (if index < 0 \<or> index \<ge> int (length tokens) then Inr OUT_OF_BOUNDS_TOKEN
            else py_getitem tokens index) of
        Inl e \<Rightarrow> Inl e
      | Inr token \<Rightarrow> get_ngram_loop tokens rest (ngram_tokens @ [token]))"

text \<open>The token that \<open>get_ngram\<close> is specified to put at index \<open>i\<close>.\<close>

definition ngram_token :: "string list \<Rightarrow> int \<Rightarrow> string" where
  "ngram_token tokens i = (if 0 \<le> i \<and> i < int (length tokens) then tokens ! nat i else ''<$>'')"

definition get_ngram :: "string list \<Rightarrow> int \<Rightarrow> int \<Rightarrow> py_error + string" where
  "get_ngram tokens start len =
     (case get_ngram_loop tokens (py_range start (start + len)) [] of
        Inl e \<Rightarrow> Inl e
      | Inr ngram_tokens \<Rightarrow> Inr (join '' '' ngram_tokens))"

subsection \<open>sequence_accuracy_scoring\<close>

text \<open>
  The result is the \<open>int\<close> 0 or the quotient of two floats converted from integers;
  the model keeps the exact quotient as a rational number. The generator expression
  yields a 1 for every pair of \<open>zip(y_true, y_pred)\<close> whose components are equal.
\<close>

definition sequence_accuracy_scoring :: "'a list \<Rightarrow> 'a list \<Rightarrow> rat" where
  "sequence_accuracy_scoring y_true y_pred =
     (let total = length y_true in
      if total = 0 then 0
      else
        let matches = sum_list (map (\<lambda>(yseq_true, yseq_pred). (1::nat))
                        (filter (\<lambda>(yseq_true, yseq_pred). yseq_true = yseq_pred)
                           (zip y_true y_pred)))
        in of_nat matches / of_nat total)"

text \<open>
  \<open>sequence_tag_accuracy_scoring\<close>: the same score over the two flattened tag
  streams.
\<close>

definition sequence_tag_accuracy_scoring :: "'a list list \<Rightarrow> 'a list list \<Rightarrow> rat" where
  "sequence_tag_accuracy_scoring y_true y_pred =
     (let y_true_flat = concat y_true;
          y_pred_flat = concat y_pred;
          total = length y_true_flat in
      if total = 0 then 0
      else
        let matches = sum_list (map (\<lambda>(y_true_tag, y_pred_tag). (1::nat))
                        (filter (\<lambda>(y_true_tag, y_pred_tag). y_true_tag = y_pred_tag)
                           (zip y_true_flat y_pred_flat)))
        in of_nat matches / of_nat total)"

subsection \<open>entity_seqs_equal\<close>

record span =
  span_start :: int
  span_end :: int

record entity =
  entity_type :: string

record query_entity =
  qe_entity :: entity
  qe_span :: span
  qe_text :: string

text \<open>The \<open>for\<close> loop over \<open>zip(expected, predicted)\<close> with its three early returns.\<close>

fun entity_seqs_loop :: "(query_entity \<times> query_entity) list \<Rightarrow> bool" where
  "entity_seqs_loop [] = True"
| "entity_seqs_loop ((expected_entity, predicted_entity) # rest) =
     (if entity_type (qe_entity expected_entity) \<noteq> entity_type (qe_entity predicted_entity)
        then False
      else if qe_span expected_entity \<noteq> qe_span predicted_entity then False
      else if qe_text expected_entity \<noteq> qe_text predicted_entity then False
      else entity_seqs_loop rest)"

definition entity_seqs_equal :: "query_entity list \<Rightarrow> query_entity list \<Rightarrow> bool" where
  "entity_seqs_equal expected predicted =
     (if length expected \<noteq> length predicted then False
      else entity_seqs_loop (zip expected predicted))"


subsection \<open>Registries\<close>

text \<open>
  The three module-level dictionaries are the state of the module. A registered model
  class or label encoder class is a callable that is given the configuration and
  returns an instance or raises; the registered features of an example type are a
  dictionary of extractors keyed by name.
\<close>

record model_config =
  model_type :: string
  label_type :: string

record ('m, 'f, 'l) registries =
  MODEL_MAP :: "string \<rightharpoonup> (model_config \<Rightarrow> py_error + 'm)"
  FEATURE_MAP :: "string \<rightharpoonup> (string \<rightharpoonup> 'f)"
  LABEL_MAP :: "string \<rightharpoonup> (model_config \<Rightarrow> py_error + 'l)"

text \<open>Dictionary subscription \<open>d[key]\<close>, which raises \<open>KeyError\<close> for a missing key.\<close>

definition dict_getitem :: "(string \<rightharpoonup> 'v) \<Rightarrow> string \<Rightarrow> py_error + 'v" where
  "dict_getitem d k = (case d k of None \<Rightarrow> Inl (KeyError k) | Some v \<Rightarrow> Inr v)"

text \<open>
  \<open>create_model\<close>: the body of the \<open>try\<close> is the lookup followed by the call of the
  class; the handler turns a \<open>KeyError\<close> leaving that body into the \<open>ValueError\<close>, and
  every other exception propagates.
\<close>

definition create_model_try ::
    "model_config \<Rightarrow> ('m, 'f, 'l) registries \<Rightarrow> py_error + 'm" where
  "create_model_try config st =
     (case dict_getitem (MODEL_MAP st) (model_type config) of
        Inl e \<Rightarrow> Inl e
      | Inr model_class \<Rightarrow> model_class config)"

definition create_model :: "model_config \<Rightarrow> ('m, 'f, 'l) registries \<Rightarrow> py_error + 'm" where
  "create_model config st =
     (case create_model_try config st of
        Inl (KeyError k) \<Rightarrow>
          Inl (ValueError ''Invalid model configuration: Unknown model type {!r}''
                 (model_type config))
      | r \<Rightarrow> r)"

definition get_feature_extractor ::
    "string \<Rightarrow> string \<Rightarrow> ('m, 'f, 'l) registries \<Rightarrow> py_error + 'f" where
  "get_feature_extractor example_type name st =
     (case dict_getitem (FEATURE_MAP st) example_type of
        Inl e \<Rightarrow> Inl e
      | Inr features \<Rightarrow> dict_getitem features name)"

definition get_label_encoder :: "model_config \<Rightarrow> ('m, 'f, 'l) registries \<Rightarrow> py_error + 'l" where
  "get_label_encoder config st =
     (case dict_getitem (LABEL_MAP st) (label_type config) of
        Inl e \<Rightarrow> Inl e
      | Inr label_encoder \<Rightarrow> label_encoder config)"

text \<open>
  The registration functions return \<open>None\<close> or raise, and update the module state; the
  model returns the outcome together with the state after the call.
\<close>

definition register_model ::
    "string \<Rightarrow> (model_config \<Rightarrow> py_error + 'm) \<Rightarrow> ('m, 'f, 'l) registries
       \<Rightarrow> (py_error + unit) \<times> ('m, 'f, 'l) registries" where
  "register_model mtype model_class st =
     (if mtype \<in> dom (MODEL_MAP st)
      then (Inl (ValueError ''Model {!r} is already registered.'' mtype), st)
      else (Inr (), st\<lparr>MODEL_MAP := (MODEL_MAP st)(mtype \<mapsto> model_class)\<rparr>))"

definition register_features ::
    "string \<Rightarrow> (string \<rightharpoonup> 'f) \<Rightarrow> ('m, 'f, 'l) registries
       \<Rightarrow> (py_error + unit) \<times> ('m, 'f, 'l) registries" where
  "register_features example_type features st =
     (if example_type \<in> dom (FEATURE_MAP st)
      then (Inl (ValueError ''Features for example type {!r} are already registered.''
                   example_type), st)
      else (Inr (), st\<lparr>FEATURE_MAP := (FEATURE_MAP st)(example_type \<mapsto> features)\<rparr>))"

definition register_label ::
    "string \<Rightarrow> (model_config \<Rightarrow> py_error + 'l) \<Rightarrow> ('m, 'f, 'l) registries
       \<Rightarrow> (py_error + unit) \<times> ('m, 'f, 'l) registries" where
  "register_label ltype label_encoder st =
     (if ltype \<in> dom (LABEL_MAP st)
      then (Inl (ValueError ''Label encoder for label type {!r} is already registered.''
                   ltype), st)
      else (Inr (), st\<lparr>LABEL_MAP := (LABEL_MAP st)(ltype \<mapsto> label_encoder)\<rparr>))"

text \<open>
  Example registries: one label encoder is registered under \<open>class\<close>, and one model
  class under \<open>text\<close>. The constructor of the model class obtains its label encoder
  with \<open>get_label_encoder\<close>, so it raises the \<open>KeyError\<close> of that function when the
  label type of the configuration is not registered.
\<close>

definition example_labels :: "(nat, nat, nat) registries" where
  "example_labels =
     \<lparr>MODEL_MAP = Map.empty, FEATURE_MAP = Map.empty,
      LABEL_MAP = [''class'' \<mapsto> (\<lambda>config. Inr 0)]\<rparr>"

definition example_model_class :: "model_config \<Rightarrow> py_error + nat" where
  "example_model_class config =
     (case get_label_encoder config example_labels of
        Inl e \<Rightarrow> Inl e
      | Inr label_encoder \<Rightarrow> Inr (Suc label_encoder))"

definition example_registries :: "(nat, nat, nat) registries" where
  "example_registries = example_labels\<lparr>MODEL_MAP := [''text'' \<mapsto> example_model_class]\<rparr>"

subsection \<open>requires\<close>

text \<open>
  A function object is its code together with the attribute \<open>requirements\<close> of its
  \<open>__dict__\<close>, which is absent (\<open>None\<close>) or a set of resource names. The decorator
  \<open>add_resource\<close> returned by \<open>requires(resource)\<close> updates the object and returns it.
\<close>

record 'c func_obj =
  func_code :: 'c
  requirements :: "string set option"

definition requires :: "string \<Rightarrow> 'c func_obj \<Rightarrow> 'c func_obj" where
  "requires resource func =
     (let req = (case requirements func of None \<Rightarrow> {} | Some s \<Rightarrow> s);
          req = insert resource req
      in func\<lparr>requirements := Some req\<rparr>)"

subsection \<open>ingest_dynamic_gazetteer\<close>

text \<open>
  The claims about \<open>ingest_dynamic_gazetteer\<close> are about object identity and mutation,
  so the resource lives in an explicit store. A value is an immutable atom or a
  reference to a dictionary object; a dictionary has string keys and keeps its
  insertion order; the store is the list of the dictionary objects allocated so far,
  and the address of an object is its index. Dictionaries are the only mutable objects
  of the model.
\<close>

datatype pyval = VNone | VInt int | VStr string | VRef nat

type_synonym pydict = "(string \<times> pyval) list"

type_synonym store = "pydict list"

text \<open>\<open>d[k] = v\<close> on the items of a dictionary: an existing key keeps its position.\<close>

fun dict_set :: "pydict \<Rightarrow> string \<Rightarrow> pyval \<Rightarrow> pydict" where
  "dict_set [] k v = [(k, v)]"
| "dict_set ((k', v') # rest) k v =
     (if k' = k then (k, v) # rest else (k', v') # dict_set rest k v)"

text \<open>
  \<open>copy.deepcopy\<close>. The copy of a dictionary is a new object whose values are the
  copies of the values of the original; an atom is its own copy. The original objects
  are read from the store \<open>s0\<close> of the call, the new objects are appended to the
  current store. The recursion is bounded by a fuel that limits the nesting depth, and
  the result is \<open>None\<close> when the fuel runs out or a reference points outside the store.
  The memo table of \<open>deepcopy\<close>, which preserves sharing and admits cycles, is not
  modelled: resources are trees of dictionaries.
\<close>

fun copy_items ::
    "(store \<Rightarrow> pyval \<Rightarrow> (store \<times> pyval) option) \<Rightarrow> pydict \<Rightarrow> store
       \<Rightarrow> (store \<times> pydict) option" where
  "copy_items f [] s = Some (s, [])"
| "copy_items f ((k, v) # rest) s =
     (case f s v of
        None \<Rightarrow> None
      | Some (s1, v1) \<Rightarrow>
          (case copy_items f rest s1 of
             None \<Rightarrow> None
           | Some (s2, rest1) \<Rightarrow> Some (s2, (k, v1) # rest1)))"

primrec deepcopy :: "nat \<Rightarrow> store \<Rightarrow> store \<Rightarrow> pyval \<Rightarrow> (store \<times> pyval) option" where
  "deepcopy 0 s0 s v = (case v of VRef a \<Rightarrow> None | _ \<Rightarrow> Some (s, v))"
| "deepcopy (Suc n) s0 s v =
     (case v of
        VRef a \<Rightarrow>
          (if a < length s0
           then (case copy_items (deepcopy n s0) (s0 ! a) s of
                   None \<Rightarrow> None
                 | Some (s1, items) \<Rightarrow> Some (s1 @ [items], VRef (length s1)))
           else None)
      | _ \<Rightarrow> Some (s, v))"

text \<open>A value is well formed to depth \<open>n\<close>: no dangling reference, nesting at most \<open>n\<close>.\<close>

primrec wf_val :: "nat \<Rightarrow> store \<Rightarrow> pyval \<Rightarrow> bool" where
  "wf_val 0 s v = (case v of VRef a \<Rightarrow> False | _ \<Rightarrow> True)"
| "wf_val (Suc n) s v =
     (case v of
        VRef a \<Rightarrow> a < length s \<and> list_all (\<lambda>kv. wf_val n s (snd kv)) (s ! a)
      | _ \<Rightarrow> True)"

text \<open>
  The value denoted by a store value, as a pure tree: what Python's \<open>==\<close> compares
  (here with the order of the keys).
\<close>

datatype pytree = TNone | TInt int | TStr string | TDict "(string \<times> pytree) list"

primrec value_of :: "nat \<Rightarrow> store \<Rightarrow> pyval \<Rightarrow> pytree option" where
  "value_of 0 s v =
     (case v of VNone \<Rightarrow> Some TNone | VInt i \<Rightarrow> Some (TInt i) | VStr t \<Rightarrow> Some (TStr t)
      | VRef a \<Rightarrow> None)"
| "value_of (Suc n) s v =
     (case v of VNone \<Rightarrow> Some TNone | VInt i \<Rightarrow> Some (TInt i) | VStr t \<Rightarrow> Some (TStr t)
      | VRef a \<Rightarrow>
          (if a < length s
           then map_option TDict
                  (those (map (\<lambda>kv. map_option (Pair (fst kv)) (value_of n s (snd kv))) (s ! a)))
           else None))"

text \<open>
  \<open>is_copy n lo hi s0 v s1 v1\<close>: the value \<open>v1\<close> in the store \<open>s1\<close> is a deep copy of \<open>v\<close>
  in \<open>s0\<close>. Atoms are equal; a dictionary is copied by a dictionary at an address in
  \<open>[lo, hi)\<close> with the same keys in the same order, whose values are deep copies at
  addresses below its own.
\<close>

primrec is_copy :: "nat \<Rightarrow> nat \<Rightarrow> nat \<Rightarrow> store \<Rightarrow> pyval \<Rightarrow> store \<Rightarrow> pyval \<Rightarrow> bool" where
  "is_copy 0 lo hi s0 v s1 v1 = (case v of VRef a \<Rightarrow> False | _ \<Rightarrow> v1 = v)"
| "is_copy (Suc n) lo hi s0 v s1 v1 =
     (case v of
        VRef a \<Rightarrow>
          (case v1 of
             VRef b \<Rightarrow>
               a < length s0 \<and> lo \<le> b \<and> b < hi \<and> b < length s1
               \<and> list_all2 (\<lambda>kv kv1. fst kv1 = fst kv \<and> is_copy n lo b s0 (snd kv) s1 (snd kv1))
                    (s0 ! a) (s1 ! b)
           | _ \<Rightarrow> False)
      | _ \<Rightarrow> v1 = v)"

text \<open>
  The class \<open>Gazetteer\<close> is imported from the module \<open>gazetteer\<close> and is not part of this
  file; its constructor and the three methods that are called are parameters. The
  methods read their arguments and the store and return the new state of the gazetteer
  object, or raise; \<open>to_dict\<close> returns the items of the dictionary it creates.
\<close>

record ('g, 'v) gaz_ops =
  gz_new :: "string \<Rightarrow> 'g"
  gz_from_dict :: "'g \<Rightarrow> store \<Rightarrow> pyval \<Rightarrow> py_error + 'g"
  gz_update_entity :: "'g \<Rightarrow> string \<Rightarrow> 'v \<Rightarrow> py_error + 'g"
  gz_to_dict :: "'g \<Rightarrow> pydict"

text \<open>
  The dynamic resource is only read. It is a dictionary of sections, a section is a
  dictionary of entity types, and an entity type has a dictionary of values by key.
\<close>

type_synonym 'v dyn_entry = "(string \<times> 'v) list"

type_synonym 'v dyn_section = "(string \<times> 'v dyn_entry) list"

type_synonym 'v dyn_resource = "(string \<times> 'v dyn_section) list"

text \<open>Subscription \<open>d[k]\<close> of a dictionary given by its items.\<close>

definition items_getitem :: "(string \<times> 'a) list \<Rightarrow> string \<Rightarrow> py_error + 'a" where
  "items_getitem d k = (case map_of d k of None \<Rightarrow> Inl (KeyError k) | Some v \<Rightarrow> Inr v)"

text \<open>
  Subscription \<open>obj[k]\<close> with a string key of a value in the store; only a dictionary
  supports it.
\<close>

definition store_getitem :: "store \<Rightarrow> pyval \<Rightarrow> string \<Rightarrow> py_error + pyval" where
  "store_getitem s obj k =
     (case obj of
        VRef a \<Rightarrow>
          (if a < length s then items_getitem (s ! a) k
           else Inl (OtherError ''dangling reference''))
      | _ \<Rightarrow> Inl TypeError)"

text \<open>
  The test \<open>k in obj\<close>: key membership for a dictionary, substring test for a string,
  \<open>TypeError\<close> for \<open>None\<close> and for an integer.
\<close>

definition py_contains :: "store \<Rightarrow> string \<Rightarrow> pyval \<Rightarrow> py_error + bool" where
  "py_contains s k obj =
     (case obj of
        VRef a \<Rightarrow>
          (if a < length s then Inr (k \<in> set (map fst (s ! a)))
           else Inl (OtherError ''dangling reference''))
      | VStr t \<Rightarrow> Inr (sublist k t)
      | _ \<Rightarrow> Inl TypeError)"

text \<open>The comparison \<open>v > 0\<close> (Python 3: only a number is ordered against 0).\<close>

definition py_gt_zero :: "pyval \<Rightarrow> py_error + bool" where
  "py_gt_zero v = (case v of VInt i \<Rightarrow> Inr (0 < i) | _ \<Rightarrow> Inl TypeError)"

text \<open>The assignment \<open>obj[k] = v\<close>: it mutates the dictionary object in place.\<close>

definition store_setitem :: "store \<Rightarrow> pyval \<Rightarrow> string \<Rightarrow> pyval \<Rightarrow> py_error + store" where
  "store_setitem s obj k v =
     (case obj of
        VRef a \<Rightarrow>
          (if a < length s then Inr (s[a := dict_set (s ! a) k v])
           else Inl (OtherError ''dangling reference''))
      | _ \<Rightarrow> Inl TypeError)"

text \<open>
  The inner loop \<open>for key in dynamic_resource[GAZETTEER_RSC][entity]\<close>, over the
  remaining keys.
\<close>

fun update_loop ::
    "('g, 'v) gaz_ops \<Rightarrow> 'v dyn_entry \<Rightarrow> string list \<Rightarrow> 'g \<Rightarrow> py_error + 'g" where
  "update_loop ops dyn_entry [] new_gaz = Inr new_gaz"
| "update_loop ops dyn_entry (key # rest) new_gaz =
     (case items_getitem dyn_entry key of
        Inl e \<Rightarrow> Inl e
      | Inr val \<Rightarrow>
          (case gz_update_entity ops new_gaz key val of
             Inl e \<Rightarrow> Inl e
           | Inr new_gaz1 \<Rightarrow> update_loop ops dyn_entry rest new_gaz1))"

text \<open>
  The body of the outer loop for one entity type: the new store, or the exception that
  leaves the body. Nothing is written before the final assignment.
\<close>

definition ingest_entity ::
    "('g, 'v) gaz_ops \<Rightarrow> 'v dyn_section \<Rightarrow> pyval \<Rightarrow> store \<Rightarrow> string \<Rightarrow> py_error + store" where
  "ingest_entity ops dyn_gaz workspace_resource s entity =
     (case store_getitem s workspace_resource GAZETTEER_RSC of
        Inl e \<Rightarrow> Inl e
      | Inr ws_gaz \<Rightarrow>
     (case py_contains s entity ws_gaz of
        Inl e \<Rightarrow> Inl e
      | Inr False \<Rightarrow> Inr s
      | Inr True \<Rightarrow>
     (case store_getitem s ws_gaz entity of
        Inl e \<Rightarrow> Inl e
      | Inr entry \<Rightarrow>
     (case gz_from_dict ops (gz_new ops entity) s entry of
        Inl e \<Rightarrow> Inl e
      | Inr new_gaz \<Rightarrow>
     (case store_getitem s entry ''total_entities'' of
        Inl e \<Rightarrow> Inl e
      | Inr total_entities \<Rightarrow>
     (case py_gt_zero total_entities of
        Inl e \<Rightarrow> Inl e
      | Inr positive \<Rightarrow>
     (case (if positive
            then (case items_getitem dyn_gaz entity of
                    Inl e \<Rightarrow> Inl e
                  | Inr dyn_entry \<Rightarrow> update_loop ops dyn_entry (map fst dyn_entry) new_gaz)
            else Inr new_gaz) of
        Inl e \<Rightarrow> Inl e
      | Inr new_gaz1 \<Rightarrow>
          store_setitem (s @ [gz_to_dict ops new_gaz1]) ws_gaz entity (VRef (length s)))))))))"

text \<open>
  The outer loop \<open>for entity in dynamic_resource[GAZETTEER_RSC]\<close>, over the remaining
  entity types: the store when the loop is left, and the exception if it is left by one.
\<close>

fun ingest_loop ::
    "('g, 'v) gaz_ops \<Rightarrow> 'v dyn_section \<Rightarrow> pyval \<Rightarrow> string list \<Rightarrow> store
       \<Rightarrow> store \<times> (py_error + unit)" where
  "ingest_loop ops dyn_gaz workspace_resource [] s = (s, Inr ())"
| "ingest_loop ops dyn_gaz workspace_resource (entity # rest) s =
     (case ingest_entity ops dyn_gaz workspace_resource s entity of
        Inl e \<Rightarrow> (s, Inl e)
      | Inr s1 \<Rightarrow> ingest_loop ops dyn_gaz workspace_resource rest s1)"

text \<open>
  \<open>ingest_dynamic_gazetteer\<close>: the store after the call together with the returned
  value or the exception; \<open>None\<close> when the deep copy does not return.
\<close>

definition ingest_dynamic_gazetteer ::
    "nat \<Rightarrow> ('g, 'v) gaz_ops \<Rightarrow> store \<Rightarrow> pyval \<Rightarrow> 'v dyn_resource option
       \<Rightarrow> (store \<times> (py_error + pyval)) option" where
  "ingest_dynamic_gazetteer fuel ops s resource dynamic_resource =
     (case deepcopy fuel s s resource of
        None \<Rightarrow> None
      | Some (s1, workspace_resource) \<Rightarrow>
          (case dynamic_resource of
             None \<Rightarrow> Some (s1, Inr workspace_resource)
           | Some dyn \<Rightarrow>
               if dyn \<noteq> [] \<and> GAZETTEER_RSC \<in> set (map fst dyn)
               then (case items_getitem dyn GAZETTEER_RSC of
                       Inl e \<Rightarrow> Some (s1, Inl e)
                     | Inr dyn_gaz \<Rightarrow>
                         (case ingest_loop ops dyn_gaz workspace_resource (map fst dyn_gaz) s1 of
                            (s2, Inl e) \<Rightarrow> Some (s2, Inl e)
                          | (s2, Inr u) \<Rightarrow> Some (s2, Inr workspace_resource)))
               else Some (s1, Inr workspace_resource)))"

text \<open>
  Modelled from the spec: the class \<open>Gazetteer\<close> of the module \<open>gazetteer\<close>, which is
  not among the sources. The specification describes a gazetteer entry as a mapping with
  at least a \<open>total_entities\<close> count and per-key frequency data, with \<open>from_dict\<close> and
  \<open>to_dict\<close> as its serialization and a per-key update that merges a dynamic count.
  The gazetteer object holds the items of the mapping.
\<close>

definition spec_gazetteer :: "(pydict, int) gaz_ops" where
  "spec_gazetteer =
     \<lparr>gz_new = (\<lambda>name. []),
      gz_from_dict = (\<lambda>g s d. case d of
                         VRef a \<Rightarrow> if a < length s then Inr (s ! a)
                                    else Inl (OtherError ''dangling reference'')
                       | _ \<Rightarrow> Inl (OtherError ''AttributeError'')),
      gz_update_entity = (\<lambda>g key val. Inr (dict_set g key (VInt val))),
      gz_to_dict = (\<lambda>g. g)\<rparr>"


text \<open>A small resource, a dynamic resource and the store after ingesting it, for the examples.\<close>

definition example_store :: store where
  "example_store =
     [[(''total_entities'', VInt 2), (''austin'', VInt 5)],
      [(''total_entities'', VInt 0)],
      [(''city'', VRef 0), (''dish'', VRef 1)],
      [(''the'', VInt 7)],
      [(''gazetteers'', VRef 2), (''w_freq'', VRef 3)]]"

definition example_dynamic :: "int dyn_resource" where
  "example_dynamic =
     [(''gazetteers'', [(''city'', [(''dallas'', 3)]), (''dish'', [(''taco'', 1)]),
                        (''artist'', [(''prince'', 9)])])]"



subsection \<open>Loop invariants of ingest_dynamic_gazetteer\<close>

text \<open>
  The invariant of the outer loop for the frame property: the workspace resource is an
  object that was allocated by the call, and every reference it holds is to such an
  object.
\<close>

definition ws_fresh :: "nat \<Rightarrow> pyval \<Rightarrow> store \<Rightarrow> bool" where
  "ws_fresh n0 ws s =
     (n0 \<le> length s \<and>
      (\<forall>w. ws = VRef w \<longrightarrow> w < length s \<longrightarrow>
         (\<forall>k g. (k, VRef g) \<in> set (s ! w) \<longrightarrow> n0 \<le> g)))"



section \<open>Properties\<close>

subsection \<open>get_ngram\<close>

lemma py_getitem_in_range:
  "0 \<le> i \<Longrightarrow> i < int (length xs) \<Longrightarrow> py_getitem xs i = Inr (xs ! nat i)"
  by (simp add: py_getitem_def)

lemma get_ngram_loop_map:
  "get_ngram_loop tokens idxs acc = Inr (acc @ map (ngram_token tokens) idxs)"
proof (induction idxs arbitrary: acc)
  case Nil
  show ?case by simp
next
  case (Cons i idxs)
  show ?case
  proof (cases "i < 0 \<or> int (length tokens) \<le> i")
    case True
    then show ?thesis
      using Cons.IH [of "acc @ [OUT_OF_BOUNDS_TOKEN]"]
      by (auto simp: ngram_token_def OUT_OF_BOUNDS_TOKEN_def)
  next
    case False
    then have "py_getitem tokens i = Inr (tokens ! nat i)"
      by (simp add: py_getitem_in_range)
    with False show ?thesis
      using Cons.IH [of "acc @ [tokens ! nat i]"]
      by (simp add: ngram_token_def)
  qed
qed

text \<open>
  Claim C4. For every list of tokens and all integers \<open>start\<close> and \<open>length\<close>,
  \<open>get_ngram\<close> returns (it never raises) the tokens at the indices
  \<open>start .. start + length - 1\<close> joined by single spaces, where every index outside
  \<open>[0, len(tokens))\<close> contributes the sentinel \<open><$>\<close>; the two examples of the
  specification are instances.
\<close>

theorem get_ngram_spec:
  "get_ngram tokens start len =
     Inr (join '' '' (map (\<lambda>i. if 0 \<le> i \<and> i < int (length tokens) then tokens ! nat i else ''<$>'')
                       [start..start + len - 1]))
   \<and> get_ngram [''a'', ''b'', ''c''] (-1) 2 = Inr ''<$> a''
   \<and> get_ngram [''a'', ''b'', ''c''] 2 2 = Inr ''c <$>''"
proof -
  have "ngram_token tokens = (\<lambda>i. if 0 \<le> i \<and> i < int (length tokens) then tokens ! nat i else ''<$>'')"
    by (rule ext) (simp add: ngram_token_def)
  then have gen: "\<And>s l. get_ngram tokens s l =
     Inr (join '' '' (map (\<lambda>i. if 0 \<le> i \<and> i < int (length tokens) then tokens ! nat i else ''<$>'')
                       [s..s + l - 1]))"
    by (simp add: get_ngram_def get_ngram_loop_map py_range_def)
  have e1: "get_ngram [''a'', ''b'', ''c''] (-1) 2 = Inr ''<$> a''"
    by (simp add: get_ngram_def py_range_def upto.simps py_getitem_def OUT_OF_BOUNDS_TOKEN_def)
  have e2: "get_ngram [''a'', ''b'', ''c''] 2 2 = Inr ''c <$>''"
    by (simp add: get_ngram_def py_range_def upto.simps py_getitem_def OUT_OF_BOUNDS_TOKEN_def)
  from gen e1 e2 show ?thesis by blast
qed

subsection \<open>sequence_accuracy_scoring\<close>

lemma matches_count:
  "sum_list (map (\<lambda>(a, b). (1::nat)) (filter (\<lambda>(a, b). a = b) (zip xs ys)))
     = card {i. i < min (length xs) (length ys) \<and> xs ! i = ys ! i}"
proof -
  have "sum_list (map (\<lambda>(a, b). (1::nat)) (filter (\<lambda>(a, b). a = b) (zip xs ys)))
          = length (filter (\<lambda>(a, b). a = b) (zip xs ys))"
    by (induction "filter (\<lambda>(a, b). a = b) (zip xs ys)") (simp_all add: sum_list_triv case_prod_unfold)
  also have "\<dots> = card {i. i < length (zip xs ys) \<and> (\<lambda>(a, b). a = b) (zip xs ys ! i)}"
    by (rule length_filter_conv_card)
  also have "{i. i < length (zip xs ys) \<and> (\<lambda>(a, b). a = b) (zip xs ys ! i)}
               = {i. i < min (length xs) (length ys) \<and> xs ! i = ys ! i}"
    by auto
  finally show ?thesis .
qed

text \<open>
  Claim C1. \<open>sequence_accuracy_scoring(y_true, y_pred)\<close> is the number of positions
  \<open>i < min(len(y_true), len(y_pred))\<close> with \<open>y_true[i] == y_pred[i]\<close>, divided by
  \<open>len(y_true)\<close>: the pairing stops at the shorter list and the denominator is the
  length of \<open>y_true\<close>. For an empty \<open>y_true\<close> the result is 0.
\<close>

theorem sequence_accuracy_scoring_spec:
  "sequence_accuracy_scoring y_true y_pred =
     of_nat (card {i. i < min (length y_true) (length y_pred) \<and> y_true ! i = y_pred ! i})
       / of_nat (length y_true)
   \<and> sequence_accuracy_scoring [] y_pred = 0"
proof -
  have "sequence_accuracy_scoring y_true y_pred =
     of_nat (card {i. i < min (length y_true) (length y_pred) \<and> y_true ! i = y_pred ! i})
       / of_nat (length y_true)"
    unfolding sequence_accuracy_scoring_def Let_def matches_count by simp
  moreover have "sequence_accuracy_scoring [] y_pred = 0"
    by (simp add: sequence_accuracy_scoring_def)
  ultimately show ?thesis by blast
qed

subsection \<open>entity_seqs_equal\<close>

lemma entity_seqs_loop_zip:
  "length xs = length ys \<Longrightarrow>
   entity_seqs_loop (zip xs ys) =
     (\<forall>i < length xs. entity_type (qe_entity (xs ! i)) = entity_type (qe_entity (ys ! i))
        \<and> qe_span (xs ! i) = qe_span (ys ! i) \<and> qe_text (xs ! i) = qe_text (ys ! i))"
proof (induction xs ys rule: list_induct2)
  case Nil
  show ?case by simp
next
  case (Cons x xs y ys)
  then show ?case by (auto simp: All_less_Suc2)
qed

text \<open>
  Claim C6. \<open>entity_seqs_equal(expected, predicted)\<close> is true exactly when the two lists
  have the same length and every positionally aligned pair agrees in entity type, span
  and text; so it is false for lists of different lengths and false as soon as one
  aligned pair differs in one of the three.
\<close>

theorem entity_seqs_equal_spec:
  "entity_seqs_equal expected predicted =
     (length expected = length predicted
      \<and> (\<forall>i < length expected.
            entity_type (qe_entity (expected ! i)) = entity_type (qe_entity (predicted ! i))
          \<and> qe_span (expected ! i) = qe_span (predicted ! i)
          \<and> qe_text (expected ! i) = qe_text (predicted ! i)))"
  by (simp add: entity_seqs_equal_def entity_seqs_loop_zip)

theorem entity_seqs_equal_spec_witness:
  "entity_seqs_equal
     [\<lparr>qe_entity = \<lparr>entity_type = ''city''\<rparr>,
       qe_span = \<lparr>span_start = 0, span_end = 5\<rparr>, qe_text = ''Austin''\<rparr>]
     [\<lparr>qe_entity = \<lparr>entity_type = ''city''\<rparr>,
       qe_span = \<lparr>span_start = 0, span_end = 5\<rparr>, qe_text = ''Austin''\<rparr>]
   \<and> \<not> entity_seqs_equal
     [\<lparr>qe_entity = \<lparr>entity_type = ''city''\<rparr>,
       qe_span = \<lparr>span_start = 0, span_end = 5\<rparr>, qe_text = ''Austin''\<rparr>]
     [\<lparr>qe_entity = \<lparr>entity_type = ''city''\<rparr>,
       qe_span = \<lparr>span_start = 1, span_end = 5\<rparr>, qe_text = ''Austin''\<rparr>]
   \<and> \<not> entity_seqs_equal
     [\<lparr>qe_entity = \<lparr>entity_type = ''city''\<rparr>,
       qe_span = \<lparr>span_start = 0, span_end = 5\<rparr>, qe_text = ''Austin''\<rparr>] []"
  using entity_seqs_equal_spec
    [of "[\<lparr>qe_entity = \<lparr>entity_type = ''city''\<rparr>,
           qe_span = \<lparr>span_start = 0, span_end = 5\<rparr>, qe_text = ''Austin''\<rparr>]"
        "[\<lparr>qe_entity = \<lparr>entity_type = ''city''\<rparr>,
           qe_span = \<lparr>span_start = 0, span_end = 5\<rparr>, qe_text = ''Austin''\<rparr>]"]
    entity_seqs_equal_spec
    [of "[\<lparr>qe_entity = \<lparr>entity_type = ''city''\<rparr>,
           qe_span = \<lparr>span_start = 0, span_end = 5\<rparr>, qe_text = ''Austin''\<rparr>]"
        "[\<lparr>qe_entity = \<lparr>entity_type = ''city''\<rparr>,
           qe_span = \<lparr>span_start = 1, span_end = 5\<rparr>, qe_text = ''Austin''\<rparr>]"]
    entity_seqs_equal_spec
    [of "[\<lparr>qe_entity = \<lparr>entity_type = ''city''\<rparr>,
           qe_span = \<lparr>span_start = 0, span_end = 5\<rparr>, qe_text = ''Austin''\<rparr>]" "[]"]
  by simp

subsection \<open>mask_numerics\<close>

text \<open>
  Claim C5, as amended. For a token that is not empty and all of whose characters are
  digits in the sense of \<open>str.isdigit\<close>, \<open>mask_numerics\<close> returns \<open>#NUM\<close>; for every
  other token, the empty one included, it returns the token with every character that
  the class \<open>\\d\<close> matches replaced by \<open>8\<close> and every other character unchanged. This
  holds whatever the Unicode database says beyond the ASCII range. The three examples
  of the specification are instances.
\<close>

theorem mask_numerics_spec:
  "(token \<noteq> [] \<and> (\<forall>c \<in> set token. char_isdigit db c) \<longrightarrow> mask_numerics db token = ustr ''#NUM'')
   \<and> (token = [] \<or> (\<exists>c \<in> set token. \<not> char_isdigit db c) \<longrightarrow>
        length (mask_numerics db token) = length token
        \<and> (\<forall>i < length token.
              mask_numerics db token ! i
                = (if re_digit db (token ! i) then of_char CHR ''8'' else token ! i)))
   \<and> mask_numerics db (ustr ''123'') = ustr ''#NUM''
   \<and> mask_numerics db (ustr ''a1b2'') = ustr ''a8b8''
   \<and> mask_numerics db (ustr ''abc'') = ustr ''abc''"
proof -
  have 1: "token \<noteq> [] \<and> (\<forall>c \<in> set token. char_isdigit db c) \<longrightarrow> mask_numerics db token = ustr ''#NUM''"
    by (simp add: mask_numerics_def isdigit_def list_all_iff)
  have 2: "token = [] \<or> (\<exists>c \<in> set token. \<not> char_isdigit db c) \<longrightarrow>
        length (mask_numerics db token) = length token
        \<and> (\<forall>i < length token.
              mask_numerics db token ! i
                = (if re_digit db (token ! i) then of_char CHR ''8'' else token ! i))"
    by (auto simp: mask_numerics_def isdigit_def re_sub_digit_8_def list_all_iff)
  have 3: "mask_numerics db (ustr ''123'') = ustr ''#NUM''"
    by (simp add: mask_numerics_def isdigit_def ustr_def char_isdigit_def)
  have 4: "mask_numerics db (ustr ''a1b2'') = ustr ''a8b8''"
    by (simp add: mask_numerics_def isdigit_def ustr_def char_isdigit_def re_sub_digit_8_def re_digit_def)
  have 5: "mask_numerics db (ustr ''abc'') = ustr ''abc''"
    by (simp add: mask_numerics_def isdigit_def ustr_def char_isdigit_def re_sub_digit_8_def re_digit_def)
  from 1 2 3 4 5 show ?thesis by blast
qed

theorem mask_numerics_spec_witness:
  "mask_numerics example_unicode_db (ustr ''2024'') = ustr ''#NUM''
   \<and> mask_numerics example_unicode_db [0xB2] = ustr ''#NUM''
   \<and> length (mask_numerics example_unicode_db (ustr ''v2.0'')) = 4
   \<and> mask_numerics example_unicode_db (ustr ''v2.0'') ! 1 = of_char CHR ''8''
   \<and> mask_numerics example_unicode_db (ustr ''v2.0'') ! 2 = of_char CHR ''.''"
  using mask_numerics_spec [of "ustr ''2024''" example_unicode_db]
    mask_numerics_spec [of "[0xB2]" example_unicode_db]
    mask_numerics_spec [of "ustr ''v2.0''" example_unicode_db]
  by (simp add: ustr_def char_isdigit_def re_digit_def example_unicode_db_def)

text \<open>
  Claim C5 as stated fails at the empty token: all of its characters are digits, there
  being none, and the result is not \<open>#NUM\<close>.
\<close>

theorem mask_numerics_all_digits_counterexample:
  "list_all (char_isdigit example_unicode_db) (ustr '''')
   \<and> mask_numerics example_unicode_db (ustr '''') \<noteq> ustr ''#NUM''"
  by (simp add: mask_numerics_def isdigit_def re_sub_digit_8_def ustr_def)

text \<open>
  The two classes of digits differ, so one notion of a digit character does not describe
  both branches: the token U+00B2 is mapped to \<open>#NUM\<close> although \<open>\\d\<close> does not match
  its character, and after a letter that character is not replaced by \<open>8\<close> although
  \<open>str.isdigit\<close> holds for it; an Arabic-Indic digit is a digit for both.
\<close>

lemma mask_numerics_two_digit_classes:
  "char_isdigit example_unicode_db 0xB2 \<and> \<not> re_digit example_unicode_db 0xB2
   \<and> mask_numerics example_unicode_db [0xB2] = ustr ''#NUM''
   \<and> mask_numerics example_unicode_db [of_char CHR ''a'', 0xB2] = [of_char CHR ''a'', 0xB2]
   \<and> mask_numerics example_unicode_db [0x663] = ustr ''#NUM''
   \<and> mask_numerics example_unicode_db [of_char CHR ''a'', 0x663] = ustr ''a8''"
  by (simp add: mask_numerics_def isdigit_def re_sub_digit_8_def ustr_def char_isdigit_def
      re_digit_def example_unicode_db_def)

text \<open>
  Claim C10. \<open>mask_numerics("")\<close> is the empty string and not \<open>#NUM\<close>: \<open>isdigit\<close> is
  false for the empty token, so the replacement branch is taken, although every
  character of the empty token is a digit.
\<close>

theorem mask_numerics_empty:
  "mask_numerics db (ustr '''') = ustr '''' \<and> mask_numerics db (ustr '''') \<noteq> ustr ''#NUM''
   \<and> \<not> isdigit db (ustr '''') \<and> mask_numerics db (ustr '''') = re_sub_digit_8 db (ustr '''')
   \<and> list_all (char_isdigit db) (ustr '''')"
  by (simp add: mask_numerics_def isdigit_def re_sub_digit_8_def ustr_def)

subsection \<open>Registries\<close>

text \<open>
  Claim C2. A call of \<open>register_model\<close>, \<open>register_features\<close> or \<open>register_label\<close>
  with a key that is already in the respective registry raises \<open>ValueError\<close> and
  leaves the registries as they were; with a key that is not present it stores the
  given class or dictionary under that key. Hence a second registration of the same
  key raises, and the first registration is still there afterwards.
\<close>

theorem register_once:
  "(mtype \<in> dom (MODEL_MAP st) \<longrightarrow>
      register_model mtype model_class st
        = (Inl (ValueError ''Model {!r} is already registered.'' mtype), st))
   \<and> (example_type \<in> dom (FEATURE_MAP st) \<longrightarrow>
      register_features example_type features st
        = (Inl (ValueError ''Features for example type {!r} are already registered.''
                  example_type), st))
   \<and> (ltype \<in> dom (LABEL_MAP st) \<longrightarrow>
      register_label ltype label_encoder st
        = (Inl (ValueError ''Label encoder for label type {!r} is already registered.''
                  ltype), st))
   \<and> (mtype \<notin> dom (MODEL_MAP st) \<longrightarrow>
      register_model mtype model_class st
        = (Inr (), st\<lparr>MODEL_MAP := (MODEL_MAP st)(mtype \<mapsto> model_class)\<rparr>)
      \<and> MODEL_MAP (snd (register_model mtype model_class st)) mtype = Some model_class
      \<and> (\<exists>msg. register_model mtype other_class (snd (register_model mtype model_class st))
            = (Inl (ValueError msg mtype), snd (register_model mtype model_class st))))
   \<and> (example_type \<notin> dom (FEATURE_MAP st) \<longrightarrow>
      register_features example_type features st
        = (Inr (), st\<lparr>FEATURE_MAP := (FEATURE_MAP st)(example_type \<mapsto> features)\<rparr>)
      \<and> FEATURE_MAP (snd (register_features example_type features st)) example_type
          = Some features
      \<and> (\<exists>msg. register_features example_type other_features
                  (snd (register_features example_type features st))
            = (Inl (ValueError msg example_type),
               snd (register_features example_type features st))))
   \<and> (ltype \<notin> dom (LABEL_MAP st) \<longrightarrow>
      register_label ltype label_encoder st
        = (Inr (), st\<lparr>LABEL_MAP := (LABEL_MAP st)(ltype \<mapsto> label_encoder)\<rparr>)
      \<and> LABEL_MAP (snd (register_label ltype label_encoder st)) ltype = Some label_encoder
      \<and> (\<exists>msg. register_label ltype other_encoder (snd (register_label ltype label_encoder st))
            = (Inl (ValueError msg ltype), snd (register_label ltype label_encoder st))))"
  by (simp add: register_model_def register_features_def register_label_def)

theorem register_once_witness:
  "register_model ''text'' (\<lambda>config. Inr (1::nat))
       \<lparr>MODEL_MAP = [''text'' \<mapsto> (\<lambda>config. Inr 0)],
        FEATURE_MAP = [''query'' \<mapsto> [''bag'' \<mapsto> (0::nat)]],
        LABEL_MAP = [''class'' \<mapsto> (\<lambda>config. Inr (0::nat))]\<rparr>
     = (Inl (ValueError ''Model {!r} is already registered.'' ''text''),
        \<lparr>MODEL_MAP = [''text'' \<mapsto> (\<lambda>config. Inr 0)],
         FEATURE_MAP = [''query'' \<mapsto> [''bag'' \<mapsto> 0]],
         LABEL_MAP = [''class'' \<mapsto> (\<lambda>config. Inr 0)]\<rparr>)
   \<and> fst (register_features ''query'' Map.empty
       \<lparr>MODEL_MAP = [''text'' \<mapsto> (\<lambda>config. Inr (0::nat))],
        FEATURE_MAP = [''query'' \<mapsto> [''bag'' \<mapsto> (0::nat)]],
        LABEL_MAP = [''class'' \<mapsto> (\<lambda>config. Inr (0::nat))]\<rparr>)
     = Inl (ValueError ''Features for example type {!r} are already registered.'' ''query'')
   \<and> fst (register_label ''class'' (\<lambda>config. Inr 1)
       \<lparr>MODEL_MAP = [''text'' \<mapsto> (\<lambda>config. Inr (0::nat))],
        FEATURE_MAP = [''query'' \<mapsto> [''bag'' \<mapsto> (0::nat)]],
        LABEL_MAP = [''class'' \<mapsto> (\<lambda>config. Inr (0::nat))]\<rparr>)
     = Inl (ValueError ''Label encoder for label type {!r} is already registered.'' ''class'')
   \<and> MODEL_MAP (snd (register_model ''tagger'' (\<lambda>config. Inr (1::nat))
       \<lparr>MODEL_MAP = [''text'' \<mapsto> (\<lambda>config. Inr 0)],
        FEATURE_MAP = [''query'' \<mapsto> [''bag'' \<mapsto> (0::nat)]],
        LABEL_MAP = [''class'' \<mapsto> (\<lambda>config. Inr (0::nat))]\<rparr>)) ''tagger''
     = Some (\<lambda>config. Inr 1)
   \<and> FEATURE_MAP (snd (register_features ''entity'' [''len'' \<mapsto> 2]
       \<lparr>MODEL_MAP = [''text'' \<mapsto> (\<lambda>config. Inr (0::nat))],
        FEATURE_MAP = [''query'' \<mapsto> [''bag'' \<mapsto> (0::nat)]],
        LABEL_MAP = [''class'' \<mapsto> (\<lambda>config. Inr (0::nat))]\<rparr>)) ''entity''
     = Some [''len'' \<mapsto> 2]
   \<and> LABEL_MAP (snd (register_label ''entities'' (\<lambda>config. Inr 1)
       \<lparr>MODEL_MAP = [''text'' \<mapsto> (\<lambda>config. Inr (0::nat))],
        FEATURE_MAP = [''query'' \<mapsto> [''bag'' \<mapsto> (0::nat)]],
        LABEL_MAP = [''class'' \<mapsto> (\<lambda>config. Inr (0::nat))]\<rparr>)) ''entities''
     = Some (\<lambda>config. Inr 1)"
  using register_once
    [of "''text''"
        "\<lparr>MODEL_MAP = [''text'' \<mapsto> (\<lambda>config. Inr (0::nat))],
          FEATURE_MAP = [''query'' \<mapsto> [''bag'' \<mapsto> (0::nat)]],
          LABEL_MAP = [''class'' \<mapsto> (\<lambda>config. Inr (0::nat))]\<rparr>"
        "\<lambda>config. Inr 1" "''query''" Map.empty "''class''" "\<lambda>config. Inr 1"]
    register_once
    [of "''tagger''"
        "\<lparr>MODEL_MAP = [''text'' \<mapsto> (\<lambda>config. Inr (0::nat))],
          FEATURE_MAP = [''query'' \<mapsto> [''bag'' \<mapsto> (0::nat)]],
          LABEL_MAP = [''class'' \<mapsto> (\<lambda>config. Inr (0::nat))]\<rparr>"
        "\<lambda>config. Inr 1" "''entity''" "[''len'' \<mapsto> 2]" "''entities''" "\<lambda>config. Inr 1"]
  by simp

text \<open>
  Claim C3 at a registered model type whose class raises \<open>KeyError\<close> when it is
  called, here because the label type of the configuration is not registered: the
  handler of \<open>create_model\<close> also catches that exception, and the call raises the
  \<open>ValueError\<close> that names the model type as unknown although the type is in the
  registry.
\<close>

theorem create_model_keyerror_in_class:
  "MODEL_MAP example_registries ''text'' = Some example_model_class
   \<and> example_model_class \<lparr>model_type = ''text'', label_type = ''entities''\<rparr>
       = Inl (KeyError ''entities'')
   \<and> create_model \<lparr>model_type = ''text'', label_type = ''entities''\<rparr> example_registries
       = Inl (ValueError ''Invalid model configuration: Unknown model type {!r}'' ''text'')"
  by (simp add: create_model_def create_model_try_def dict_getitem_def example_registries_def
      example_model_class_def example_labels_def get_label_encoder_def)

lemma create_model_absent:
  "model_type config \<notin> dom (MODEL_MAP st) \<Longrightarrow>
   create_model config st
     = Inl (ValueError ''Invalid model configuration: Unknown model type {!r}'' (model_type config))"
  by (auto simp: create_model_def create_model_try_def dict_getitem_def split: option.splits)

lemma create_model_present:
  "MODEL_MAP st (model_type config) = Some model_class \<Longrightarrow>
   create_model config st =
     (case model_class config of
        Inl (KeyError k) \<Rightarrow>
          Inl (ValueError ''Invalid model configuration: Unknown model type {!r}''
                 (model_type config))
      | r \<Rightarrow> r)"
  by (simp add: create_model_def create_model_try_def dict_getitem_def)

lemma get_label_encoder_present:
  "LABEL_MAP st (label_type config) = Some label_encoder \<Longrightarrow>
   get_label_encoder config st = label_encoder config"
  by (simp add: get_label_encoder_def dict_getitem_def)

subsection \<open>requires\<close>

text \<open>
  Claim C9. Applying \<open>requires(a)\<close> and then \<open>requires(b)\<close> to a function object gives
  that function with a requirements set that contains \<open>a\<close> and \<open>b\<close>; the set starts
  empty when the function has none yet; and the two decorators commute.
\<close>

theorem requires_accumulates:
  "(\<exists>req. requirements (requires b (requires a f)) = Some req \<and> a \<in> req \<and> b \<in> req)
   \<and> (requirements f = None \<longrightarrow>
        requirements (requires a f) = Some {a}
        \<and> requirements (requires b (requires a f)) = Some {a, b})
   \<and> requires b (requires a f) = requires a (requires b f)
   \<and> func_code (requires b (requires a f)) = func_code f
   \<and> requirements (requires ''w_freq'' (requires ''gazetteers'' \<lparr>func_code = c, requirements = None\<rparr>))
        = Some {''gazetteers'', ''w_freq''}"
  by (auto simp: requires_def Let_def insert_commute split: option.splits)


theorem requires_accumulates_witness:
  "requirements (requires ''q_freq'' \<lparr>func_code = (0::nat), requirements = None\<rparr>)
     = Some {''q_freq''}
   \<and> requirements (requires ''w_freq'' (requires ''q_freq''
        \<lparr>func_code = (0::nat), requirements = None\<rparr>)) = Some {''q_freq'', ''w_freq''}"
proof -
  have h: "requirements \<lparr>func_code = (0::nat), requirements = None\<rparr> = None"
    by simp
  show ?thesis
    using h requires_accumulates
      [where a = "''q_freq''" and b = "''w_freq''"
         and f = "\<lparr>func_code = (0::nat), requirements = None\<rparr>" and c = "0::nat"]
    by metis
qed

subsection \<open>ingest_dynamic_gazetteer\<close>



lemma dict_set_subset: "set (dict_set d k v) \<subseteq> insert (k, v) (set d)"
  by (induction d) (auto split: if_splits)

lemma copy_items_extends:
  assumes f: "\<And>s v s1 v1. f s v = Some (s1, v1) \<Longrightarrow> \<exists>ext. s1 = s @ ext"
  shows "copy_items f items s = Some (s1, items1) \<Longrightarrow> \<exists>ext. s1 = s @ ext"
proof (induction items arbitrary: s s1 items1)
  case Nil
  then show ?case by simp
next
  case (Cons kv items)
  obtain k v where kv: "kv = (k, v)" by (cases kv)
  from Cons.prems kv obtain sa va sb rest1 where
    a: "f s v = Some (sa, va)" and b: "copy_items f items sa = Some (sb, rest1)" and c: "s1 = sb"
    by (auto split: option.splits)
  from f [OF a] obtain e1 where "sa = s @ e1" by blast
  moreover from Cons.IH [OF b] obtain e2 where "sb = sa @ e2" by blast
  ultimately show ?case using c by simp
qed

lemma deepcopy_extends:
  "deepcopy n s0 s v = Some (s1, v1) \<Longrightarrow> \<exists>ext. s1 = s @ ext"
proof (induction n arbitrary: s v s1 v1)
  case 0
  then show ?case by (cases v) auto
next
  case (Suc n)
  show ?case
  proof (cases v)
    case (VRef a)
    with Suc.prems obtain sa items where
      c: "copy_items (deepcopy n s0) (s0 ! a) s = Some (sa, items)" and e: "s1 = sa @ [items]"
      by (auto split: if_splits option.splits)
    have "\<exists>ext. sa = s @ ext"
      by (rule copy_items_extends [OF _ c]) (erule Suc.IH)
    then obtain ext where "sa = s @ ext" by blast
    with e show ?thesis by simp
  qed (use Suc.prems in auto)
qed

lemma is_copy_mono:
  "is_copy n lo hi s0 v s1 v1 \<Longrightarrow> lo' \<le> lo \<Longrightarrow> hi \<le> hi' \<Longrightarrow>
   (\<And>b. b < hi \<Longrightarrow> b < length s1 \<Longrightarrow> b < length s2 \<and> s2 ! b = s1 ! b) \<Longrightarrow>
   is_copy n lo' hi' s0 v s2 v1"
proof (induction n arbitrary: v v1 hi hi')
  case 0
  then show ?case by (cases v) auto
next
  case (Suc n)
  show ?case
  proof (cases v)
    case (VRef a)
    with Suc.prems(1) obtain b where v1: "v1 = VRef b"
      and a: "a < length s0" and b: "lo \<le> b" "b < hi" "b < length s1"
      and l: "list_all2 (\<lambda>kv kv1. fst kv1 = fst kv \<and> is_copy n lo b s0 (snd kv) s1 (snd kv1))
                (s0 ! a) (s1 ! b)"
      by (cases v1) auto
    from Suc.prems(4) [OF b(2) b(3)] have b2: "b < length s2" "s2 ! b = s1 ! b" by auto
    have "is_copy n lo' b s0 x s2 x1" if h: "is_copy n lo b s0 x s1 x1" for x x1
    proof (rule Suc.IH [OF h Suc.prems(2)])
      show "b \<le> b" by simp
      show "c < length s2 \<and> s2 ! c = s1 ! c" if "c < b" "c < length s1" for c
        using that Suc.prems(4) [of c] b(2) by auto
    qed
    with l have "list_all2 (\<lambda>kv kv1. fst kv1 = fst kv \<and> is_copy n lo' b s0 (snd kv) s2 (snd kv1))
                (s0 ! a) (s1 ! b)"
      by (auto elim!: list_all2_mono)
    with VRef v1 a b b2 Suc.prems(2,3) show ?thesis by auto
  qed (use Suc.prems in auto)
qed

lemma copy_items_is_copy:
  assumes f: "\<And>s v s1 v1. deepcopy n s0 s v = Some (s1, v1) \<Longrightarrow>
                is_copy n (length s) (length s1) s0 v s1 v1"
  shows "copy_items (deepcopy n s0) items s = Some (s1, items1) \<Longrightarrow>
         list_all2 (\<lambda>kv kv1. fst kv1 = fst kv
                       \<and> is_copy n (length s) (length s1) s0 (snd kv) s1 (snd kv1)) items items1"
proof (induction items arbitrary: s s1 items1)
  case Nil
  then show ?case by simp
next
  case (Cons kv items)
  obtain k v where kv: "kv = (k, v)" by (cases kv)
  from Cons.prems kv obtain sa va rest1 where
    a: "deepcopy n s0 s v = Some (sa, va)" and b: "copy_items (deepcopy n s0) items sa = Some (s1, rest1)"
    and c: "items1 = (k, va) # rest1"
    by (auto split: option.splits)
  from deepcopy_extends [OF a] obtain e1 where e1: "sa = s @ e1" by blast
  have "\<exists>ext. s1 = sa @ ext"
    by (rule copy_items_extends [OF _ b]) (erule deepcopy_extends)
  then obtain e2 where e2: "s1 = sa @ e2" by blast
  have hd: "is_copy n (length s) (length s1) s0 v s1 va"
    by (rule is_copy_mono [OF f [OF a]]) (auto simp: e2 nth_append)
  have "is_copy n (length s) (length s1) s0 x s1 x1"
    if "is_copy n (length sa) (length s1) s0 x s1 x1" for x x1
    by (rule is_copy_mono [OF that]) (auto simp: e1)
  with Cons.IH [OF b]
  have tl: "list_all2 (\<lambda>kv kv1. fst kv1 = fst kv
                       \<and> is_copy n (length s) (length s1) s0 (snd kv) s1 (snd kv1)) items rest1"
    by (auto elim!: list_all2_mono)
  from hd tl kv c show ?case by simp
qed

lemma deepcopy_is_copy:
  "deepcopy n s0 s v = Some (s1, v1) \<Longrightarrow> is_copy n (length s) (length s1) s0 v s1 v1"
proof (induction n arbitrary: s v s1 v1)
  case 0
  then show ?case by (cases v) auto
next
  case (Suc n)
  show ?case
  proof (cases v)
    case (VRef a)
    with Suc.prems obtain sa items where a: "a < length s0"
      and c: "copy_items (deepcopy n s0) (s0 ! a) s = Some (sa, items)"
      and e: "s1 = sa @ [items]" "v1 = VRef (length sa)"
      by (auto split: if_splits option.splits)
    have "\<exists>ext. sa = s @ ext"
      by (rule copy_items_extends [OF _ c]) (erule deepcopy_extends)
    then obtain ext where ext: "sa = s @ ext" by blast
    have "is_copy n (length s) (length sa) s0 x s1 x1"
      if "is_copy n (length s) (length sa) s0 x sa x1" for x x1
      by (rule is_copy_mono [OF that]) (auto simp: e(1) nth_append)
    with copy_items_is_copy [OF Suc.IH c]
    have "list_all2 (\<lambda>kv kv1. fst kv1 = fst kv
                       \<and> is_copy n (length s) (length sa) s0 (snd kv) s1 (snd kv1)) (s0 ! a) items"
      by (auto elim!: list_all2_mono)
    with VRef a e ext show ?thesis by (simp add: nth_append)
  qed (use Suc.prems in auto)
qed

lemma copy_items_returns:
  assumes f: "\<And>s v. v \<in> snd ` set items \<Longrightarrow> \<exists>s1 v1. f s v = Some (s1, v1)"
  shows "\<exists>s1 items1. copy_items f items s = Some (s1, items1)"
  using f
proof (induction items arbitrary: s)
  case Nil
  show ?case by simp
next
  case (Cons kv items)
  obtain k v where kv: "kv = (k, v)" by (cases kv)
  from Cons.prems [of v s] kv obtain sa va where a: "f s v = Some (sa, va)" by auto
  from Cons.IH [of sa] Cons.prems obtain sb rest1 where "copy_items f items sa = Some (sb, rest1)"
    by auto
  with a kv show ?case by simp
qed

lemma deepcopy_returns:
  "wf_val n s0 v \<Longrightarrow> \<exists>s1 v1. deepcopy n s0 s v = Some (s1, v1)"
proof (induction n arbitrary: s v)
  case 0
  then show ?case by (cases v) auto
next
  case (Suc n)
  show ?case
  proof (cases v)
    case (VRef a)
    with Suc.prems have a: "a < length s0" and w: "\<forall>kv \<in> set (s0 ! a). wf_val n s0 (snd kv)"
      by (auto simp: list_all_iff)
    have "\<exists>s1 items1. copy_items (deepcopy n s0) (s0 ! a) s = Some (s1, items1)"
      by (rule copy_items_returns) (use w Suc.IH in auto)
    with VRef a show ?thesis by auto
  qed auto
qed

lemma is_copy_value_of:
  "is_copy n lo hi s0 v s1 v1 \<Longrightarrow>
   value_of n s1 v1 = value_of n s0 v \<and> (\<exists>t. value_of n s0 v = Some t)"
proof (induction n arbitrary: v v1 hi)
  case 0
  then show ?case by (cases v) auto
next
  case (Suc n)
  show ?case
  proof (cases v)
    case (VRef a)
    with Suc.prems obtain b where v1: "v1 = VRef b"
      and a: "a < length s0" and b: "b < length s1"
      and l: "list_all2 (\<lambda>kv kv1. fst kv1 = fst kv \<and> is_copy n lo b s0 (snd kv) s1 (snd kv1))
                (s0 ! a) (s1 ! b)"
      by (cases v1) auto
    have "map (\<lambda>kv. map_option (Pair (fst kv)) (value_of n s1 (snd kv))) ys
            = map (\<lambda>kv. map_option (Pair (fst kv)) (value_of n s0 (snd kv))) xs
          \<and> (\<exists>ts. those (map (\<lambda>kv. map_option (Pair (fst kv)) (value_of n s0 (snd kv))) xs) = Some ts)"
      if "list_all2 (\<lambda>kv kv1. fst kv1 = fst kv \<and> is_copy n lo b s0 (snd kv) s1 (snd kv1)) xs ys"
      for xs ys
      using that
    proof (induction xs ys rule: list_all2_induct)
      case Nil
      show ?case by simp
    next
      case (Cons x xs y ys)
      from Cons.hyps(1) Suc.IH [OF conjunct2 [OF Cons.hyps(1)]]
      have "value_of n s1 (snd y) = value_of n s0 (snd x)" "\<exists>t. value_of n s0 (snd x) = Some t"
        "fst y = fst x"
        by auto
      with Cons.IH show ?case by auto
    qed
    from this [OF l] VRef v1 a b show ?thesis by auto
  qed (use Suc.prems in auto)
qed

lemma store_getitem_InrD:
  "store_getitem s obj k = Inr v \<Longrightarrow>
   \<exists>a. obj = VRef a \<and> a < length s \<and> map_of (s ! a) k = Some v"
  by (auto simp: store_getitem_def items_getitem_def split: pyval.splits if_splits option.splits)

lemma store_setitem_InrD:
  "store_setitem s obj k v = Inr s' \<Longrightarrow>
   \<exists>a. obj = VRef a \<and> a < length s \<and> s' = s[a := dict_set (s ! a) k v]"
  by (auto simp: store_setitem_def split: pyval.splits if_splits)

text \<open>What a normal exit of the loop body says about the run of the body.\<close>

lemma ingest_entity_InrD:
  assumes "ingest_entity ops dyn_gaz ws s entity = Inr s'"
  shows "\<exists>ws_gaz. store_getitem s ws GAZETTEER_RSC = Inr ws_gaz
           \<and> (py_contains s entity ws_gaz = Inr False \<and> s' = s
              \<or> py_contains s entity ws_gaz = Inr True
                \<and> (\<exists>entry new_gaz tot pos new_gaz1.
                      store_getitem s ws_gaz entity = Inr entry
                    \<and> gz_from_dict ops (gz_new ops entity) s entry = Inr new_gaz
                    \<and> store_getitem s entry ''total_entities'' = Inr tot
                    \<and> py_gt_zero tot = Inr pos
                    \<and> (pos \<longrightarrow> (\<exists>dyn_entry. items_getitem dyn_gaz entity = Inr dyn_entry
                                \<and> update_loop ops dyn_entry (map fst dyn_entry) new_gaz = Inr new_gaz1))
                    \<and> (\<not> pos \<longrightarrow> new_gaz1 = new_gaz)
                    \<and> store_setitem (s @ [gz_to_dict ops new_gaz1]) ws_gaz entity (VRef (length s))
                        = Inr s'))"
  using assms unfolding ingest_entity_def
  by (auto split: sum.splits bool.splits if_splits)

lemma ingest_entity_frame:
  assumes run: "ingest_entity ops dyn_gaz ws s entity = Inr s'" and inv: "ws_fresh n0 ws s"
  shows "take n0 s' = take n0 s \<and> ws_fresh n0 ws s'"
proof -
  from ingest_entity_InrD [OF run] obtain ws_gaz where
    g: "store_getitem s ws GAZETTEER_RSC = Inr ws_gaz" and
    c: "s' = s \<or> (\<exists>d. store_setitem (s @ [d]) ws_gaz entity (VRef (length s)) = Inr s')"
    by blast
  from c show ?thesis
  proof
    assume "s' = s"
    with inv show ?thesis by simp
  next
    assume "\<exists>d. store_setitem (s @ [d]) ws_gaz entity (VRef (length s)) = Inr s'"
    then obtain d where "store_setitem (s @ [d]) ws_gaz entity (VRef (length s)) = Inr s'" ..
    from store_setitem_InrD [OF this] obtain a where
      a: "ws_gaz = VRef a" "a < length (s @ [d])"
      and s': "s' = (s @ [d])[a := dict_set ((s @ [d]) ! a) entity (VRef (length s))]"
      by blast
    from store_getitem_InrD [OF g] obtain w where
      w: "ws = VRef w" "w < length s" "map_of (s ! w) GAZETTEER_RSC = Some ws_gaz"
      by blast
    from w(3) have "(GAZETTEER_RSC, ws_gaz) \<in> set (s ! w)" by (rule map_of_SomeD)
    with inv w a have n0a: "n0 \<le> a" by (auto simp: ws_fresh_def)
    from inv have n0s: "n0 \<le> length s" by (simp add: ws_fresh_def)
    have t: "take n0 s' = take n0 s"
      using n0a n0s by (simp add: s')
    have "n0 \<le> g" if "(k, VRef g) \<in> set (s' ! w)" for k g
    proof (cases "a = w")
      case True
      with that w(2) have "(k, VRef g) \<in> set (dict_set (s ! w) entity (VRef (length s)))"
        by (simp add: s' nth_append)
      with dict_set_subset have "(k, VRef g) = (entity, VRef (length s)) \<or> (k, VRef g) \<in> set (s ! w)"
        by fastforce
      with inv w n0s show ?thesis by (auto simp: ws_fresh_def)
    next
      case False
      with that w(2) have "(k, VRef g) \<in> set (s ! w)" by (simp add: s' nth_append)
      with inv w show ?thesis by (auto simp: ws_fresh_def)
    qed
    with w n0s have "ws_fresh n0 ws s'" by (auto simp: ws_fresh_def s')
    with t show ?thesis by simp
  qed
qed

lemma ingest_loop_frame:
  "ingest_loop ops dyn_gaz ws entities s = (s', r) \<Longrightarrow> ws_fresh n0 ws s \<Longrightarrow>
   take n0 s' = take n0 s"
proof (induction entities arbitrary: s)
  case Nil
  then show ?case by simp
next
  case (Cons entity entities)
  show ?case
  proof (cases "ingest_entity ops dyn_gaz ws s entity")
    case (Inl e)
    with Cons.prems show ?thesis by simp
  next
    case (Inr s1)
    from ingest_entity_frame [OF Inr Cons.prems(2)]
    have 1: "take n0 s1 = take n0 s" "ws_fresh n0 ws s1" by auto
    from Cons.prems(1) Inr have "ingest_loop ops dyn_gaz ws entities s1 = (s', r)" by simp
    from Cons.IH [OF this 1(2)] 1(1) show ?thesis by simp
  qed
qed

lemma is_copy_refD:
  "is_copy n lo hi s0 v s1 (VRef b) \<Longrightarrow>
   \<exists>m a. n = Suc m \<and> v = VRef a \<and> a < length s0 \<and> lo \<le> b \<and> b < hi \<and> b < length s1
     \<and> list_all2 (\<lambda>kv kv1. fst kv1 = fst kv \<and> is_copy m lo b s0 (snd kv) s1 (snd kv1))
          (s0 ! a) (s1 ! b)"
  by (cases n; cases v) auto

lemma is_copy_of_refD:
  "is_copy n lo hi s0 (VRef a) s1 v1 \<Longrightarrow>
   \<exists>m b. n = Suc m \<and> v1 = VRef b \<and> a < length s0 \<and> lo \<le> b \<and> b < hi \<and> b < length s1
     \<and> list_all2 (\<lambda>kv kv1. fst kv1 = fst kv \<and> is_copy m lo b s0 (snd kv) s1 (snd kv1))
          (s0 ! a) (s1 ! b)"
  by (cases n; cases v1) auto

lemma deepcopy_ws_fresh:
  assumes "deepcopy n s s v = Some (s1, ws)"
  shows "ws_fresh (length s) ws s1"
proof -
  from deepcopy_extends [OF assms] have len: "length s \<le> length s1" by auto
  have "length s \<le> g" if "ws = VRef w" "(k, VRef g) \<in> set (s1 ! w)" for w k g
  proof -
    from deepcopy_is_copy [OF assms] that(1)
    have "is_copy n (length s) (length s1) s v s1 (VRef w)" by simp
    from is_copy_refD [OF this] obtain m a where
      l: "list_all2 (\<lambda>kv kv1. fst kv1 = fst kv \<and> is_copy m (length s) w s (snd kv) s1 (snd kv1))
            (s ! a) (s1 ! w)"
      by blast
    from that(2) obtain i where i: "i < length (s1 ! w)" "s1 ! w ! i = (k, VRef g)"
      by (auto simp: in_set_conv_nth)
    with l have "is_copy m (length s) w s (snd (s ! a ! i)) s1 (VRef g)"
      by (auto dest: list_all2_nthD2)
    from is_copy_refD [OF this] show ?thesis by blast
  qed
  with len show ?thesis by (auto simp: ws_fresh_def)
qed

lemma ingest_keeps_store:
  "ingest_dynamic_gazetteer fuel ops s resource dynamic_resource = Some (s', r) \<Longrightarrow>
   take (length s) s' = s"
proof -
  assume run: "ingest_dynamic_gazetteer fuel ops s resource dynamic_resource = Some (s', r)"
  then obtain s1 ws where dc: "deepcopy fuel s s resource = Some (s1, ws)"
    by (auto simp: ingest_dynamic_gazetteer_def split: option.splits)
  from deepcopy_extends [OF dc] have s1: "take (length s) s1 = s" by auto
  from run dc have "s' = s1 \<or> (\<exists>dyn_gaz es. ingest_loop ops dyn_gaz ws es s1 = (s', map_sum id (\<lambda>_. ()) r))"
    by (auto simp: ingest_dynamic_gazetteer_def split: option.splits if_splits sum.splits prod.splits)
  then show ?thesis
  proof
    assume "s' = s1"
    with s1 show ?thesis by simp
  next
    assume "\<exists>dyn_gaz es. ingest_loop ops dyn_gaz ws es s1 = (s', map_sum id (\<lambda>_. ()) r)"
    then obtain dyn_gaz es where "ingest_loop ops dyn_gaz ws es s1 = (s', map_sum id (\<lambda>_. ()) r)"
      by blast
    from ingest_loop_frame [OF this deepcopy_ws_fresh [OF dc]] s1 show ?thesis by simp
  qed
qed











lemma ingest_returns:
  "deepcopy fuel s s resource = Some (s1, ws) \<Longrightarrow>
   \<exists>s' r. ingest_dynamic_gazetteer fuel ops s resource dynamic_resource = Some (s', r)"
  unfolding ingest_dynamic_gazetteer_def
  by (auto split: option.splits if_splits sum.splits prod.splits)



text \<open>
  Claim C7. Whatever the dynamic resource is, and whether the call returns or raises,
  every object that existed before the call of \<open>ingest_dynamic_gazetteer\<close> is
  unchanged after it, the original resource included. For a well-formed resource the
  call does come back; with \<open>None\<close> as the dynamic resource it returns a deep copy:
  all of its dictionaries are new objects, it denotes the same value as the original,
  and it is not the original object.
\<close>

theorem ingest_dynamic_gazetteer_frame:
  "(\<forall>s' r. ingest_dynamic_gazetteer fuel ops s resource dynamic_resource = Some (s', r)
        \<longrightarrow> take (length s) s' = s)
   \<and> (wf_val fuel s resource \<longrightarrow>
        (\<exists>s' r. ingest_dynamic_gazetteer fuel ops s resource dynamic_resource = Some (s', r))
      \<and> (\<exists>s' ws. ingest_dynamic_gazetteer fuel ops s resource None = Some (s', Inr ws)
            \<and> take (length s) s' = s
            \<and> is_copy fuel (length s) (length s') s resource s' ws
            \<and> (\<exists>t. value_of fuel s resource = Some t \<and> value_of fuel s' ws = Some t)
            \<and> (\<forall>a. resource = VRef a \<longrightarrow> ws \<noteq> resource)))"
proof (intro conjI allI impI)
  fix s' r
  assume "ingest_dynamic_gazetteer fuel ops s resource dynamic_resource = Some (s', r)"
  then show "take (length s) s' = s" by (rule ingest_keeps_store)
next
  assume wf: "wf_val fuel s resource"
  from deepcopy_returns [OF wf] obtain s1 ws where dc: "deepcopy fuel s s resource = Some (s1, ws)"
    by blast
  from ingest_returns [OF dc]
  show "\<exists>s' r. ingest_dynamic_gazetteer fuel ops s resource dynamic_resource = Some (s', r)" .
  from dc have run: "ingest_dynamic_gazetteer fuel ops s resource None = Some (s1, Inr ws)"
    by (simp add: ingest_dynamic_gazetteer_def)
  from deepcopy_extends [OF dc] have t: "take (length s) s1 = s" by auto
  note c = deepcopy_is_copy [OF dc]
  from is_copy_value_of [OF c]
  have v: "\<exists>t. value_of fuel s resource = Some t \<and> value_of fuel s1 ws = Some t" by auto
  have "ws \<noteq> resource" if "resource = VRef a" for a
  proof -
    from c that have "is_copy fuel (length s) (length s1) s (VRef a) s1 ws" by simp
    from is_copy_of_refD [OF this] that show ?thesis by auto
  qed
  with run t c v
  show "\<exists>s' ws. ingest_dynamic_gazetteer fuel ops s resource None = Some (s', Inr ws)
            \<and> take (length s) s' = s
            \<and> is_copy fuel (length s) (length s') s resource s' ws
            \<and> (\<exists>t. value_of fuel s resource = Some t \<and> value_of fuel s' ws = Some t)
            \<and> (\<forall>a. resource = VRef a \<longrightarrow> ws \<noteq> resource)"
    by blast
qed

theorem ingest_dynamic_gazetteer_frame_witness:
  "wf_val 3 example_store (VRef 4)
   \<and> (\<exists>s' r. ingest_dynamic_gazetteer 3 spec_gazetteer example_store (VRef 4)
                (Some example_dynamic) = Some (s', r)
          \<and> take (length example_store) s' = example_store)
   \<and> (\<exists>s' ws. ingest_dynamic_gazetteer 3 spec_gazetteer example_store (VRef 4) None
                = Some (s', Inr ws)
          \<and> take (length example_store) s' = example_store
          \<and> value_of 3 s' ws = value_of 3 example_store (VRef 4)
          \<and> ws \<noteq> VRef 4)"
proof -
  have wf: "wf_val 3 example_store (VRef 4)"
    by code_simp
  note frame = ingest_dynamic_gazetteer_frame
    [of 3 spec_gazetteer example_store "VRef 4" "Some example_dynamic"]
  from frame wf
  have 1: "\<exists>s' r. ingest_dynamic_gazetteer 3 spec_gazetteer example_store (VRef 4)
                (Some example_dynamic) = Some (s', r)
          \<and> take (length example_store) s' = example_store"
    by blast
  from frame wf
  have 2: "\<exists>s' ws. ingest_dynamic_gazetteer 3 spec_gazetteer example_store (VRef 4) None
                = Some (s', Inr ws)
          \<and> take (length example_store) s' = example_store
          \<and> value_of 3 s' ws = value_of 3 example_store (VRef 4)
          \<and> ws \<noteq> VRef 4"
    by fastforce
  from wf 1 2 show ?thesis by blast
qed
















end
